theory Spec2Isabelle
  imports Main "HOL-Library.Sublist"
begin

section \<open>Requests, responses and the host's cache storage\<close>

text \<open>
  The worker \<^verbatim>\<open>sw.js\<close> registers three event handlers (install, activate, fetch) and
  talks to two services of its host: the network (\<^verbatim>\<open>fetch\<close>) and the cache storage
  (\<^verbatim>\<open>caches\<close>). A request carries the three fields the handlers read; its URL is kept
  parsed, as \<^verbatim>\<open>new URL(event.request.url)\<close> delivers it: the scheme (\<^verbatim>\<open>https\<close>, or
  \<^verbatim>\<open>chrome-extension\<close> for a request that a page makes to an extension), the host with
  its port, the path and the query. A response carries its status, the field names that
  its \<^verbatim>\<open>Vary\<close> header lists (none when it has no such header) and its body.
\<close>

record url =
  url_scheme :: string
  url_host :: string
  url_pathname :: string
  url_search :: string

record request =
  req_method :: string
  req_url :: url
  req_mode :: string

record response =
  resp_status :: nat
  resp_vary :: "string list"
  resp_body :: string

text \<open>
  One cache generation maps request identities to responses; the storage is the list of
  the named generations in the order of their creation, the order in which
  \<^verbatim>\<open>caches.keys()\<close> lists them and \<^verbatim>\<open>caches.match\<close> searches them. Every request that
  reaches a cache operation is a GET request, so its identity (method and URL) is its
  URL. Requests carry no headers here: a lookup compares URLs, as for requests that
  repeat the header values a stored response's \<^verbatim>\<open>Vary\<close> header lists.
\<close>

type_synonym cache = "(url \<times> response) list"
type_synonym storage = "(string \<times> cache) list"

text \<open>The network answers a request with a response, or fails (\<open>None\<close>: the promise rejects).\<close>

type_synonym network = "request \<Rightarrow> response option"

definition CACHE_NAME :: string where
  "CACHE_NAME = ''didit-cache-v1''"

definition ASSETS :: "string list" where
  "ASSETS = [''/'', ''/static/index.html'', ''/static/manifest.webmanifest'',
     ''/static/icons/ICON.jpg'']"

subsection \<open>The host's cache interface\<close>

text \<open>\<^verbatim>\<open>caches.open(name)\<close>: the generation of that name, created empty when there is none.\<close>

definition caches_open :: "string \<Rightarrow> storage \<Rightarrow> storage" where
  "caches_open name st = (if name \<in> set (map fst st) then st else st @ [(name, [])])"

definition caches_keys :: "storage \<Rightarrow> string list" where
  "caches_keys st = map fst st"

definition caches_delete :: "string \<Rightarrow> storage \<Rightarrow> storage" where
  "caches_delete name st = filter (\<lambda>g. fst g \<noteq> name) st"

text \<open>
  \<^verbatim>\<open>caches.match(request)\<close>, called on the storage itself: the generations are searched
  in order and the first entry found is the answer; \<open>None\<close> is JavaScript's
  \<^verbatim>\<open>undefined\<close>.
\<close>

fun caches_match :: "storage \<Rightarrow> url \<Rightarrow> response option" where
  "caches_match [] k = None"
| "caches_match ((name, c) # st) k =
     (case map_of c k of Some r \<Rightarrow> Some r | None \<Rightarrow> caches_match st k)"

text \<open>
  \<^verbatim>\<open>cache.put(request, response)\<close> on one opened generation: an entry under the same
  identity is removed and the new one added. By the Cache interface of the Service Worker
  specification the promise of \<^verbatim>\<open>put\<close> rejects with a \<^verbatim>\<open>TypeError\<close>, and the generation
  stays as it was, when the URL of the request is not an http(s) URL, when the status of
  the response is 206 (a partial response), or when the \<^verbatim>\<open>Vary\<close> header of the response
  names \<^verbatim>\<open>*\<close>. (It also rejects a request whose method is not GET and a response whose
  body was read; the handlers put only the GET request of the event and a fresh clone.)
\<close>

definition cache_put :: "url \<Rightarrow> response \<Rightarrow> cache \<Rightarrow> cache" where
  "cache_put k r c = filter (\<lambda>e. fst e \<noteq> k) c @ [(k, r)]"

definition put_in :: "string \<Rightarrow> url \<Rightarrow> response \<Rightarrow> storage \<Rightarrow> storage" where
  "put_in name k r st =
     map (\<lambda>g. if fst g = name then (fst g, cache_put k r (snd g)) else g) st"

definition storable_url :: "url \<Rightarrow> bool" where
  "storable_url k = (url_scheme k = ''http'' \<or> url_scheme k = ''https'')"

definition put_refused :: "url \<Rightarrow> response \<Rightarrow> bool" where
  "put_refused k r =
     (\<not> storable_url k \<or> resp_status r = 206 \<or> ''*'' \<in> set (resp_vary r))"

text \<open>
  A string handed to the cache interface (\<^verbatim>\<open>"/static/index.html"\<close>, the entries of
  \<^verbatim>\<open>ASSETS\<close>) is resolved against the worker's own location (\<^verbatim>\<open>self.location\<close>): every
  such string is a path from the root, so it takes the scheme and the host of the worker
  and has no query.
\<close>

definition resolve :: "url \<Rightarrow> string \<Rightarrow> url" where
  "resolve org path = org\<lparr>url_pathname := path, url_search := ''''\<rparr>"

definition asset_request :: "url \<Rightarrow> string \<Rightarrow> request" where
  "asset_request org path =
     \<lparr>req_method = ''GET'', req_url = resolve org path, req_mode = ''cors''\<rparr>"

subsection \<open>What a handler does to its host\<close>

text \<open>
  Each handler returns, with its result, the calls it made on the host, in order. The
  calls that change the storage are carried out by \<open>perform\<close>; \<open>settle\<close> carries out a
  whole log, which is the state of the storage once the handler's promises have settled.
\<close>

datatype effect =
    NetFetch request
  | MatchAll url
  | OpenCache string
  | CachePut string url response
  | ListKeys
  | DeleteCache string
  | SkipWaiting
  | ClientsClaim

fun perform :: "storage \<Rightarrow> effect \<Rightarrow> storage" where
  "perform st (OpenCache n) = caches_open n st"
| "perform st (CachePut n k r) = (if put_refused k r then st else put_in n k r st)"
| "perform st (DeleteCache n) = caches_delete n st"
| "perform st (NetFetch rq) = st"
| "perform st (MatchAll k) = st"
| "perform st ListKeys = st"
| "perform st SkipWaiting = st"
| "perform st ClientsClaim = st"

definition settle :: "storage \<Rightarrow> effect list \<Rightarrow> storage" where
  "settle st effs = foldl perform st effs"

fun is_fetch :: "effect \<Rightarrow> bool" where
  "is_fetch (NetFetch rq) = True"
| "is_fetch e = False"

fun is_cache_write :: "effect \<Rightarrow> bool" where
  "is_cache_write (OpenCache n) = True"
| "is_cache_write (CachePut n k r) = True"
| "is_cache_write (DeleteCache n) = True"
| "is_cache_write e = False"

definition fetch_count :: "effect list \<Rightarrow> nat" where
  "fetch_count effs = length (filter is_fetch effs)"

section \<open>The fetch handler\<close>

text \<open>
  Lines 31 to 64 of \<^verbatim>\<open>sw.js\<close>. The handler either leaves the event alone
  (\<open>PassThrough\<close>: it returns before \<^verbatim>\<open>event.respondWith\<close>) or answers it; \<open>RespondWith None\<close> is a promise that resolves
  to \<^verbatim>\<open>undefined\<close>, which the host reports to the page as a failed load. A response
  object is always truthy, so \<^verbatim>\<open>cached || fetch(...)\<close> takes the cached entry whenever
  there is one.
\<close>

datatype outcome = PassThrough | RespondWith "response option"

definition is_api :: "request \<Rightarrow> bool" where
  "is_api rq = prefix ''/api/'' (url_pathname (req_url rq))"

definition fetch_handler ::
  "url \<Rightarrow> network \<Rightarrow> storage \<Rightarrow> request \<Rightarrow> outcome \<times> effect list" where
  "fetch_handler org net st rq =
     (if req_method rq \<noteq> ''GET'' then (PassThrough, [])
      else if is_api rq then
        (case net rq of
           Some resp \<Rightarrow> (RespondWith (Some resp), [NetFetch rq])
         | None \<Rightarrow>
             (RespondWith (caches_match st (req_url rq)), [NetFetch rq, MatchAll (req_url rq)]))
      else
        (case caches_match st (req_url rq) of
           Some cached \<Rightarrow> (RespondWith (Some cached), [MatchAll (req_url rq)])
         | None \<Rightarrow>
             (case net rq of
                Some resp \<Rightarrow>
                  (RespondWith (Some resp),
                   [MatchAll (req_url rq), NetFetch rq, OpenCache CACHE_NAME,
                    CachePut CACHE_NAME (req_url rq) resp])
              | None \<Rightarrow>
                  (if req_mode rq = ''navigate'' then
                     (RespondWith (caches_match st (resolve org ''/static/index.html'')),
                      [MatchAll (req_url rq), NetFetch rq,
                       MatchAll (resolve org ''/static/index.html'')])
                   else (RespondWith None, [MatchAll (req_url rq), NetFetch rq])))))"

text \<open>
  A run of fetch events, one after the other: each is handled on the storage its
  predecessors left once their background stores have settled. The network may answer
  differently at every event.
\<close>

fun serve :: "url \<Rightarrow> storage \<Rightarrow> (network \<times> request) list \<Rightarrow> (outcome \<times> effect list) list" where
  "serve org st [] = []"
| "serve org st (ev # evs) =
     fetch_handler org (fst ev) st (snd ev)
       # serve org (settle st (snd (fetch_handler org (fst ev) st (snd ev)))) evs"

section \<open>The install handler\<close>

text \<open>
  Lines 13 to 18 of \<^verbatim>\<open>sw.js\<close>. By the Cache interface, \<^verbatim>\<open>cache.addAll(ASSETS)\<close> makes a
  GET request of every entry and rejects, with nothing written, when the URL of a request
  is not an http(s) URL (then before it fetches), when a fetch fails, or when a fetch
  answers with a status outside 200..299, with status 206 or with a \<^verbatim>\<open>Vary\<close> header that
  names \<^verbatim>\<open>*\<close>; otherwise it puts every response under its request.
  \<^verbatim>\<open>event.waitUntil\<close> hands the promise to the host: \<open>Rejected\<close> is a failed install.
  \<^verbatim>\<open>self.skipWaiting()\<close> is called in either case.
\<close>

datatype settled = Fulfilled | Rejected

definition ok_status :: "nat \<Rightarrow> bool" where
  "ok_status s = (200 \<le> s \<and> s \<le> 299)"

definition add_all_accepts :: "response \<Rightarrow> bool" where
  "add_all_accepts r =
     (ok_status (resp_status r) \<and> resp_status r \<noteq> 206 \<and> ''*'' \<notin> set (resp_vary r))"

fun fetch_assets :: "network \<Rightarrow> request list \<Rightarrow> (url \<times> response) list option" where
  "fetch_assets net [] = Some []"
| "fetch_assets net (rq # rqs) =
     (case net rq of
        None \<Rightarrow> None
      | Some r \<Rightarrow>
          if add_all_accepts r then
            (case fetch_assets net rqs of None \<Rightarrow> None | Some es \<Rightarrow> Some ((req_url rq, r) # es))
          else None)"

definition put_all :: "string \<Rightarrow> (url \<times> response) list \<Rightarrow> storage \<Rightarrow> storage" where
  "put_all name es st = foldl (\<lambda>s e. put_in name (fst e) (snd e) s) st es"

definition add_all_requests :: "url \<Rightarrow> string list \<Rightarrow> request list option" where
  "add_all_requests org paths =
     (if list_all (\<lambda>p. storable_url (resolve org p)) paths
      then Some (map (asset_request org) paths) else None)"

definition cache_add_all ::
  "url \<Rightarrow> network \<Rightarrow> string \<Rightarrow> string list \<Rightarrow> storage \<Rightarrow> storage option" where
  "cache_add_all org net name paths st =
     (case add_all_requests org paths of
        None \<Rightarrow> None
      | Some rqs \<Rightarrow>
          (case fetch_assets net rqs of
             None \<Rightarrow> None
           | Some es \<Rightarrow> Some (put_all name es st)))"

definition add_all_fetches :: "url \<Rightarrow> string list \<Rightarrow> effect list" where
  "add_all_fetches org paths =
     (case add_all_requests org paths of None \<Rightarrow> [] | Some rqs \<Rightarrow> map NetFetch rqs)"

definition install_handler ::
  "url \<Rightarrow> network \<Rightarrow> storage \<Rightarrow> settled \<times> storage \<times> effect list" where
  "install_handler org net st =
     (let opened = caches_open CACHE_NAME st;
          calls = [OpenCache CACHE_NAME, SkipWaiting] @ add_all_fetches org ASSETS
      in case cache_add_all org net CACHE_NAME ASSETS opened of
           None \<Rightarrow> (Rejected, opened, calls)
         | Some stored \<Rightarrow> (Fulfilled, stored, calls))"

text \<open>
  A manifest fetch that \<^verbatim>\<open>addAll\<close> takes as succeeded: the request has an http(s) URL and
  its fetch resolved with a response that \<^verbatim>\<open>addAll\<close> accepts.
\<close>

definition fetch_accepted :: "network \<Rightarrow> request \<Rightarrow> bool" where
  "fetch_accepted net rq =
     (storable_url (req_url rq)
      \<and> (case net rq of None \<Rightarrow> False | Some r \<Rightarrow> add_all_accepts r))"

text \<open>The entries of one generation, and the identities it holds.\<close>

definition generation :: "storage \<Rightarrow> string \<Rightarrow> cache" where
  "generation st name = (case map_of st name of None \<Rightarrow> [] | Some c \<Rightarrow> c)"

definition identities :: "cache \<Rightarrow> url set" where
  "identities c = fst ` set c"

text \<open>The puts of \<^verbatim>\<open>addAll\<close>, seen on the one generation they go to.\<close>

definition put_each :: "(url \<times> response) list \<Rightarrow> cache \<Rightarrow> cache" where
  "put_each es c = foldl (\<lambda>c e. cache_put (fst e) (snd e) c) c es"

text \<open>What the manifest fetches deliver when all of them are accepted.\<close>

definition fetched_manifest :: "url \<Rightarrow> network \<Rightarrow> (url \<times> response) list" where
  "fetched_manifest org net = map (\<lambda>p. (resolve org p, the (net (asset_request org p)))) ASSETS"

section \<open>The activate handler\<close>

text \<open>
  Lines 21 to 28 of \<^verbatim>\<open>sw.js\<close>.
  \<^verbatim>\<open>keys.map(k => (k !== CACHE_NAME ? caches.delete(k) : null))\<close>: one slot per
  generation name, holding the deletion issued for it or nothing. A deletion that is
  issued removes the generation of that name.
\<close>

definition sweep :: "string list \<Rightarrow> string option list" where
  "sweep ks = map (\<lambda>k. if k \<noteq> CACHE_NAME then Some k else None) ks"

fun issued :: "string option list \<Rightarrow> effect list" where
  "issued [] = []"
| "issued (None # ds) = issued ds"
| "issued (Some k # ds) = DeleteCache k # issued ds"

definition activate_handler :: "storage \<Rightarrow> settled \<times> storage \<times> effect list" where
  "activate_handler st =
     (let calls = ListKeys # ClientsClaim # issued (sweep (caches_keys st))
      in (Fulfilled, settle st calls, calls))"

section \<open>Sample hosts\<close>

text \<open>The location of the worker.\<close>

definition site :: url where
  "site = \<lparr>url_scheme = ''https'', url_host = ''didit.example'',
     url_pathname = ''/static/sw.js'', url_search = ''''\<rparr>"

definition get_request :: "string \<Rightarrow> string \<Rightarrow> request" where
  "get_request path m = \<lparr>req_method = ''GET'', req_url = resolve site path, req_mode = m\<rparr>"

definition post_request :: request where
  "post_request = \<lparr>req_method = ''POST'', req_url = resolve site ''/api/items'', req_mode = ''cors''\<rparr>"

definition reply :: "nat \<Rightarrow> string \<Rightarrow> response" where
  "reply s b = \<lparr>resp_status = s, resp_vary = [], resp_body = b\<rparr>"

definition varying_reply :: response where
  "varying_reply = \<lparr>resp_status = 200, resp_vary = [''*''], resp_body = ''page''\<rparr>"

definition extension_request :: request where
  "extension_request =
     \<lparr>req_method = ''GET'',
      req_url = \<lparr>url_scheme = ''chrome-extension'', url_host = ''abcdef'',
        url_pathname = ''/inject.js'', url_search = ''''\<rparr>,
      req_mode = ''no-cors''\<rparr>"

definition offline :: network where
  "offline rq = None"

definition answering :: "response \<Rightarrow> network" where
  "answering r rq = Some r"

definition shell_storage :: storage where
  "shell_storage =
     [(''didit-cache-v1'', [(resolve site ''/static/index.html'', reply 200 ''<html>shell</html>'')])]"

definition two_generations :: storage where
  "two_generations =
     [(''didit-cache-v0'', [(resolve site ''/static/app.js'', reply 200 ''old'')]),
      (''didit-cache-v1'', [(resolve site ''/static/index.html'', reply 200 ''<html>shell</html>'')])]"

definition clip_request :: request where
  "clip_request = get_request ''/media/clip.mp4'' ''no-cors''"


definition refilled_storage :: storage where
  "refilled_storage =
     [(''didit-cache-v1'', [(resolve site ''/some/page'', reply 200 ''page'')])]"

definition script_request :: request where
  "script_request = get_request ''/static/app.js'' ''no-cors''"

section \<open>Properties of the cache interface\<close>

lemma caches_match_None_iff:
  "caches_match st k = None \<longleftrightarrow> (\<forall>g \<in> set st. map_of (snd g) k = None)"
  by (induction st k rule: caches_match.induct) (auto split: option.splits)

lemma caches_match_present:
  assumes "g \<in> set st" and "map_of (snd g) k = Some r"
  shows "\<exists>r'. caches_match st k = Some r'"
proof (cases "caches_match st k")
  case None
  with assms show ?thesis by (auto simp: caches_match_None_iff)
next
  case (Some r')
  then show ?thesis by blast
qed

lemma caches_match_held:
  assumes "caches_match st k = Some r"
  shows "\<exists>g \<in> set st. map_of (snd g) k = Some r"
  using assms
  by (induction st k rule: caches_match.induct) (auto split: option.splits)

lemma caches_match_append:
  "caches_match (st @ st') k =
     (case caches_match st k of Some r \<Rightarrow> Some r | None \<Rightarrow> caches_match st' k)"
  by (induction st k rule: caches_match.induct) (auto split: option.splits)

lemma caches_match_open [simp]: "caches_match (caches_open n st) k = caches_match st k"
  by (simp add: caches_open_def caches_match_append split: option.splits)

lemma map_of_cache_put:
  "map_of (cache_put k r c) k' = (if k' = k then Some r else map_of c k')"
proof (induction c)
  case Nil
  then show ?case by (simp add: cache_put_def)
next
  case (Cons e c)
  then show ?case by (cases e) (auto simp: cache_put_def)
qed


lemma caches_match_put_miss:
  assumes "caches_match st k = None" and "n \<in> fst ` set st"
  shows "caches_match (put_in n k r st) k = Some r"
  using assms
  by (induction st k rule: caches_match.induct)
     (auto simp: put_in_def map_of_cache_put split: option.splits)

lemma open_has_name: "n \<in> fst ` set (caches_open n st)"
  by (simp add: caches_open_def)

section \<open>Properties of the fetch handler\<close>

text \<open>C8 (pass-through): a request whose method is not GET gets no response from the
  handler, and the handler makes no call on the host at all: no cache read, no cache
  write, no fetch; the storage is as it was.\<close>

theorem non_get_passes_through:
  assumes "req_method rq \<noteq> ''GET''"
  shows "fetch_handler org net st rq = (PassThrough, [])
    \<and> settle st (snd (fetch_handler org net st rq)) = st"
  using assms by (simp add: fetch_handler_def settle_def)

theorem non_get_passes_through_witness:
  "req_method post_request \<noteq> ''GET''
    \<and> fetch_handler site offline shell_storage post_request = (PassThrough, [])
    \<and> settle shell_storage (snd (fetch_handler site offline shell_storage post_request)) = shell_storage"
  using non_get_passes_through [of post_request site offline shell_storage]
  by (simp add: post_request_def settle_def)

text \<open>C1 (cache hit): a GET request outside \<^verbatim>\<open>/api/\<close> whose identity is present in the
  cache (some generation holds an entry under it) is answered with a cached entry of
  that identity, the one the cache lookup finds; it is the entry assumed present whenever
  no generation holds a different one. The only call on the host is that lookup: the
  network is not asked (the count of fetches is zero, whatever the network would have
  answered) and nothing is written.\<close>

theorem cache_hit_served_without_fetch:
  assumes "req_method rq = ''GET''" and "\<not> is_api rq"
    and "g \<in> set st" and "map_of (snd g) (req_url rq) = Some entry"
  shows "\<exists>cached.
      fetch_handler org net st rq = (RespondWith (Some cached), [MatchAll (req_url rq)])
      \<and> caches_match st (req_url rq) = Some cached
      \<and> (\<exists>h \<in> set st. map_of (snd h) (req_url rq) = Some cached)
      \<and> ((\<forall>h \<in> set st. map_of (snd h) (req_url rq) = None
              \<or> map_of (snd h) (req_url rq) = Some entry) \<longrightarrow> cached = entry)
      \<and> fetch_count (snd (fetch_handler org net st rq)) = 0
      \<and> settle st (snd (fetch_handler org net st rq)) = st"
proof -
  from assms(3,4) obtain cached where hit: "caches_match st (req_url rq) = Some cached"
    using caches_match_present by blast
  then obtain h where h: "h \<in> set st" "map_of (snd h) (req_url rq) = Some cached"
    using caches_match_held by blast
  have "fetch_handler org net st rq = (RespondWith (Some cached), [MatchAll (req_url rq)])"
    using assms(1,2) hit by (simp add: fetch_handler_def)
  moreover have "cached = entry"
    if "\<forall>h \<in> set st. map_of (snd h) (req_url rq) = None \<or> map_of (snd h) (req_url rq) = Some entry"
    using that h by auto
  ultimately show ?thesis
    using hit h by (auto simp: fetch_count_def settle_def)
qed

theorem cache_hit_served_without_fetch_witness:
  "req_method (get_request ''/static/index.html'' ''no-cors'') = ''GET''
    \<and> \<not> is_api (get_request ''/static/index.html'' ''no-cors'')
    \<and> (''didit-cache-v1'', [(resolve site ''/static/index.html'', reply 200 ''<html>shell</html>'')])
        \<in> set shell_storage
    \<and> map_of [(resolve site ''/static/index.html'', reply 200 ''<html>shell</html>'')]
          (req_url (get_request ''/static/index.html'' ''no-cors''))
        = Some (reply 200 ''<html>shell</html>'')
    \<and> fetch_handler site (answering (reply 200 ''fresh'')) shell_storage
          (get_request ''/static/index.html'' ''no-cors'')
        = (RespondWith (Some (reply 200 ''<html>shell</html>'')),
           [MatchAll (resolve site ''/static/index.html'')])
    \<and> fetch_count (snd (fetch_handler site (answering (reply 200 ''fresh'')) shell_storage
          (get_request ''/static/index.html'' ''no-cors''))) = 0"
proof -
  let ?rq = "get_request ''/static/index.html'' ''no-cors''"
  let ?c = "[(resolve site ''/static/index.html'', reply 200 ''<html>shell</html>'')]"
  have h1: "req_method ?rq = ''GET''" by (simp add: get_request_def)
  have h2: "\<not> is_api ?rq" by (simp add: get_request_def is_api_def resolve_def site_def)
  have h3: "(''didit-cache-v1'', ?c) \<in> set shell_storage" by (simp add: shell_storage_def)
  have h4: "map_of (snd (''didit-cache-v1'', ?c)) (req_url ?rq) = Some (reply 200 ''<html>shell</html>'')"
    by (simp add: get_request_def)
  have h5: "req_url ?rq = resolve site ''/static/index.html''" by (simp add: get_request_def)
  have only: "\<forall>h \<in> set shell_storage. map_of (snd h) (req_url ?rq) = None
      \<or> map_of (snd h) (req_url ?rq) = Some (reply 200 ''<html>shell</html>'')"
    by (simp add: shell_storage_def get_request_def)
  from cache_hit_served_without_fetch
    [where org = site and net = "answering (reply 200 ''fresh'')", OF h1 h2 h3 h4] only
  have "fetch_handler site (answering (reply 200 ''fresh'')) shell_storage ?rq
        = (RespondWith (Some (reply 200 ''<html>shell</html>'')), [MatchAll (req_url ?rq)])
      \<and> fetch_count (snd (fetch_handler site (answering (reply 200 ''fresh'')) shell_storage ?rq)) = 0"
    by blast
  with h1 h2 h3 h4 h5 show ?thesis by (simp add: fetch_count_def)
qed

text \<open>C2 (network-first, network answers): a GET request under \<^verbatim>\<open>/api/\<close> whose fetch
  resolves, with whatever status, is answered with exactly the response of the network.
  The only call on the host is the fetch: no cache is opened or written, and the storage
  is as it was.\<close>

theorem api_success_returns_network_response:
  assumes "req_method rq = ''GET''" and "is_api rq" and "net rq = Some resp"
  shows "fetch_handler org net st rq = (RespondWith (Some resp), [NetFetch rq])
    \<and> filter is_cache_write (snd (fetch_handler org net st rq)) = []
    \<and> settle st (snd (fetch_handler org net st rq)) = st"
  using assms by (simp add: fetch_handler_def settle_def)

theorem api_success_returns_network_response_witness:
  "req_method (get_request ''/api/items'' ''cors'') = ''GET''
    \<and> is_api (get_request ''/api/items'' ''cors'')
    \<and> answering (reply 500 ''boom'') (get_request ''/api/items'' ''cors'') = Some (reply 500 ''boom'')
    \<and> fetch_handler site (answering (reply 500 ''boom'')) shell_storage (get_request ''/api/items'' ''cors'')
        = (RespondWith (Some (reply 500 ''boom'')), [NetFetch (get_request ''/api/items'' ''cors'')])
    \<and> settle shell_storage (snd (fetch_handler site (answering (reply 500 ''boom'')) shell_storage
          (get_request ''/api/items'' ''cors''))) = shell_storage"
proof -
  let ?rq = "get_request ''/api/items'' ''cors''"
  have h1: "req_method ?rq = ''GET''" by (simp add: get_request_def)
  have h2: "is_api ?rq" by (simp add: get_request_def is_api_def resolve_def site_def)
  have h3: "answering (reply 500 ''boom'') ?rq = Some (reply 500 ''boom'')"
    by (simp add: answering_def)
  show ?thesis
    using h1 h2 h3 api_success_returns_network_response
        [where net = "answering (reply 500 ''boom'')" and org = site and st = shell_storage,
         OF h1 h2 h3]
    by (simp add: settle_def)
qed

text \<open>C3 (network-first, network fails): a GET request under \<^verbatim>\<open>/api/\<close> whose fetch
  rejects is answered with the result of the cache lookup for the request itself: a
  cached entry of exactly that identity when one is held, and nothing (\<open>RespondWith None\<close>,
  the undefined result) when no generation holds one. No error response is put in the
  place of the absent result.\<close>

theorem api_failure_falls_back_to_cache:
  assumes "req_method rq = ''GET''" and "is_api rq" and "net rq = None"
  shows "fetch_handler org net st rq
      = (RespondWith (caches_match st (req_url rq)), [NetFetch rq, MatchAll (req_url rq)])
    \<and> ((\<forall>g \<in> set st. map_of (snd g) (req_url rq) = None)
         \<longrightarrow> fst (fetch_handler org net st rq) = RespondWith None)
    \<and> ((\<exists>g \<in> set st. map_of (snd g) (req_url rq) \<noteq> None)
         \<longrightarrow> (\<exists>cached. fst (fetch_handler org net st rq) = RespondWith (Some cached)
               \<and> (\<exists>g \<in> set st. map_of (snd g) (req_url rq) = Some cached)))"
proof -
  have res: "fetch_handler org net st rq
      = (RespondWith (caches_match st (req_url rq)), [NetFetch rq, MatchAll (req_url rq)])"
    using assms by (simp add: fetch_handler_def)
  have "fst (fetch_handler org net st rq) = RespondWith None"
    if "\<forall>g \<in> set st. map_of (snd g) (req_url rq) = None"
    using that by (simp add: res caches_match_None_iff)
  moreover have "\<exists>cached. fst (fetch_handler org net st rq) = RespondWith (Some cached)
      \<and> (\<exists>g \<in> set st. map_of (snd g) (req_url rq) = Some cached)"
    if "\<exists>g \<in> set st. map_of (snd g) (req_url rq) \<noteq> None"
  proof -
    from that obtain cached where "caches_match st (req_url rq) = Some cached"
      using caches_match_present by fastforce
    then show ?thesis using caches_match_held by (fastforce simp: res)
  qed
  ultimately show ?thesis using res by blast
qed

theorem api_failure_falls_back_to_cache_witness:
  "req_method (get_request ''/api/items'' ''cors'') = ''GET''
    \<and> is_api (get_request ''/api/items'' ''cors'')
    \<and> offline (get_request ''/api/items'' ''cors'') = None
    \<and> caches_match shell_storage (req_url (get_request ''/api/items'' ''cors'')) = None
    \<and> fetch_handler site offline shell_storage (get_request ''/api/items'' ''cors'')
        = (RespondWith None,
           [NetFetch (get_request ''/api/items'' ''cors''), MatchAll (resolve site ''/api/items'')])"
proof -
  let ?rq = "get_request ''/api/items'' ''cors''"
  have h1: "req_method ?rq = ''GET''" by (simp add: get_request_def)
  have h2: "is_api ?rq" by (simp add: get_request_def is_api_def resolve_def site_def)
  have h3: "offline ?rq = None" by (simp add: offline_def)
  have h4: "caches_match shell_storage (req_url ?rq) = None"
    by (simp add: get_request_def resolve_def site_def shell_storage_def)
  have h5: "req_url ?rq = resolve site ''/api/items''" by (simp add: get_request_def)
  from api_failure_falls_back_to_cache
    [where net = offline and org = site and st = shell_storage, OF h1 h2 h3]
  have "fetch_handler site offline shell_storage ?rq
      = (RespondWith (caches_match shell_storage (req_url ?rq)), [NetFetch ?rq, MatchAll (req_url ?rq)])"
    by blast
  with h1 h2 h3 h4 h5 show ?thesis by simp
qed

text \<open>C5 (cache-first, miss, network fails): for a GET request outside \<^verbatim>\<open>/api/\<close> that the
  cache lookup does not find and whose fetch rejects, a request of mode \<^verbatim>\<open>navigate\<close> is
  answered with the cache lookup of \<^verbatim>\<open>/static/index.html\<close>; a request of any other mode
  gets no fallback: no further lookup is made and the answer is the undefined result.\<close>

theorem offline_miss_navigation_fallback:
  assumes "req_method rq = ''GET''" and "\<not> is_api rq"
    and "caches_match st (req_url rq) = None" and "net rq = None"
  shows "(req_mode rq = ''navigate'' \<longrightarrow>
        fetch_handler org net st rq
          = (RespondWith (caches_match st (resolve org ''/static/index.html'')),
             [MatchAll (req_url rq), NetFetch rq, MatchAll (resolve org ''/static/index.html'')]))
    \<and> (req_mode rq \<noteq> ''navigate'' \<longrightarrow>
        fetch_handler org net st rq = (RespondWith None, [MatchAll (req_url rq), NetFetch rq]))"
  using assms by (simp add: fetch_handler_def)

theorem offline_miss_navigation_fallback_witness:
  "req_method (get_request ''/some/page'' ''navigate'') = ''GET''
    \<and> \<not> is_api (get_request ''/some/page'' ''navigate'')
    \<and> caches_match shell_storage (req_url (get_request ''/some/page'' ''navigate'')) = None
    \<and> offline (get_request ''/some/page'' ''navigate'') = None
    \<and> fst (fetch_handler site offline shell_storage (get_request ''/some/page'' ''navigate''))
        = RespondWith (Some (reply 200 ''<html>shell</html>''))
    \<and> fetch_handler site offline shell_storage (get_request ''/some/page'' ''no-cors'')
        = (RespondWith None,
           [MatchAll (resolve site ''/some/page''), NetFetch (get_request ''/some/page'' ''no-cors'')])"
proof -
  let ?nav = "get_request ''/some/page'' ''navigate''"
  let ?img = "get_request ''/some/page'' ''no-cors''"
  have h1: "req_method ?nav = ''GET''" "req_method ?img = ''GET''"
    by (simp_all add: get_request_def)
  have h2: "\<not> is_api ?nav" "\<not> is_api ?img"
    by (simp_all add: get_request_def is_api_def resolve_def site_def)
  have h3: "caches_match shell_storage (req_url ?nav) = None"
    "caches_match shell_storage (req_url ?img) = None"
    by (simp_all add: get_request_def resolve_def site_def shell_storage_def)
  have h4: "offline ?nav = None" "offline ?img = None"
    by (simp_all add: offline_def)
  have h5: "caches_match shell_storage (resolve site ''/static/index.html'')
      = Some (reply 200 ''<html>shell</html>'')"
    by (simp add: resolve_def site_def shell_storage_def)
  have h6: "req_mode ?nav = ''navigate''" "req_mode ?img \<noteq> ''navigate''"
    "req_url ?img = resolve site ''/some/page''"
    by (simp_all add: get_request_def)
  show ?thesis
    using h1 h2 h3 h4 h5 h6
      offline_miss_navigation_fallback
        [where net = offline and org = site, OF h1(1) h2(1) h3(1) h4(1)]
      offline_miss_navigation_fallback
        [where net = offline and org = site, OF h1(2) h2(2) h3(2) h4(2)]
    by simp
qed

subsection \<open>Cache-first, miss, network answers\<close>

lemma settle_miss_success:
  "settle st [MatchAll k, NetFetch rq, OpenCache n, CachePut n k' r]
     = (if put_refused k' r then caches_open n st else put_in n k' r (caches_open n st))"
  by (simp add: settle_def)

lemma miss_success_result:
  assumes "req_method rq = ''GET''" and "\<not> is_api rq"
    and "caches_match st (req_url rq) = None" and "net rq = Some resp"
  shows "fetch_handler org net st rq
      = (RespondWith (Some resp),
         [MatchAll (req_url rq), NetFetch rq, OpenCache CACHE_NAME,
          CachePut CACHE_NAME (req_url rq) resp])"
  using assms by (simp add: fetch_handler_def)

lemma store_then_lookup:
  assumes "caches_match st k = None" and "\<not> put_refused k r"
  shows "caches_match (settle st [MatchAll k, NetFetch rq, OpenCache n, CachePut n k r]) k = Some r"
  using assms by (simp add: settle_miss_success caches_match_put_miss open_has_name)

lemma refused_store_leaves_miss:
  assumes "caches_match st k = None" and "put_refused k r"
  shows "caches_match (settle st [MatchAll k, NetFetch rq, OpenCache n, CachePut n k r]) k = None"
  using assms by (simp add: settle_miss_success)

text \<open>C4 (store, then lookup), as amended: a GET request outside \<^verbatim>\<open>/api/\<close> that the cache
  lookup does not find and whose fetch resolves is answered with the response of the
  network. When the host's \<^verbatim>\<open>put\<close> accepts the request and the response (the URL is an
  http(s) URL, the status is not 206 and the \<^verbatim>\<open>Vary\<close> header does not name \<^verbatim>\<open>*\<close>), the
  cache lookup of the same identity finds an equal response once the background store has
  settled. When \<^verbatim>\<open>put\<close> refuses them, the rejection is not seen by the caller, nothing is
  stored, and the lookup still finds nothing.\<close>

theorem miss_fetch_store_roundtrip:
  assumes "req_method rq = ''GET''" and "\<not> is_api rq"
    and "caches_match st (req_url rq) = None" and "net rq = Some resp"
  shows "fst (fetch_handler org net st rq) = RespondWith (Some resp)
    \<and> ((url_scheme (req_url rq) = ''http'' \<or> url_scheme (req_url rq) = ''https'')
          \<and> resp_status resp \<noteq> 206 \<and> ''*'' \<notin> set (resp_vary resp) \<longrightarrow>
         caches_match (settle st (snd (fetch_handler org net st rq))) (req_url rq) = Some resp)
    \<and> (\<not> (url_scheme (req_url rq) = ''http'' \<or> url_scheme (req_url rq) = ''https'')
          \<or> resp_status resp = 206 \<or> ''*'' \<in> set (resp_vary resp) \<longrightarrow>
         caches_match (settle st (snd (fetch_handler org net st rq))) (req_url rq) = None)"
proof -
  note res = miss_success_result [where net = net and org = org, OF assms]
  have "caches_match (settle st (snd (fetch_handler org net st rq))) (req_url rq) = Some resp"
    if "\<not> put_refused (req_url rq) resp"
    using assms(3) that by (simp add: res store_then_lookup)
  moreover have "caches_match (settle st (snd (fetch_handler org net st rq))) (req_url rq) = None"
    if "put_refused (req_url rq) resp"
    using assms(3) that by (simp add: res refused_store_leaves_miss)
  ultimately show ?thesis
    by (auto simp: res put_refused_def storable_url_def)
qed

theorem miss_fetch_store_roundtrip_witness:
  "req_method (get_request ''/some/page'' ''navigate'') = ''GET''
    \<and> \<not> is_api (get_request ''/some/page'' ''navigate'')
    \<and> caches_match shell_storage (req_url (get_request ''/some/page'' ''navigate'')) = None
    \<and> answering (reply 200 ''page'') (get_request ''/some/page'' ''navigate'') = Some (reply 200 ''page'')
    \<and> url_scheme (req_url (get_request ''/some/page'' ''navigate'')) = ''https''
    \<and> resp_status (reply 200 ''page'') \<noteq> 206
    \<and> ''*'' \<notin> set (resp_vary (reply 200 ''page''))
    \<and> fst (fetch_handler site (answering (reply 200 ''page'')) shell_storage
          (get_request ''/some/page'' ''navigate'')) = RespondWith (Some (reply 200 ''page''))
    \<and> caches_match
          (settle shell_storage (snd (fetch_handler site (answering (reply 200 ''page''))
             shell_storage (get_request ''/some/page'' ''navigate''))))
          (req_url (get_request ''/some/page'' ''navigate'')) = Some (reply 200 ''page'')"
proof -
  let ?rq = "get_request ''/some/page'' ''navigate''"
  have h1: "req_method ?rq = ''GET''" by (simp add: get_request_def)
  have h2: "\<not> is_api ?rq" by (simp add: get_request_def is_api_def resolve_def site_def)
  have h3: "caches_match shell_storage (req_url ?rq) = None"
    by (simp add: get_request_def resolve_def shell_storage_def site_def)
  have h4: "answering (reply 200 ''page'') ?rq = Some (reply 200 ''page'')"
    by (simp add: answering_def)
  have h5: "url_scheme (req_url ?rq) = ''https''"
    by (simp add: get_request_def resolve_def site_def)
  have h6: "resp_status (reply 200 ''page'') \<noteq> 206" by (simp add: reply_def)
  have h7: "''*'' \<notin> set (resp_vary (reply 200 ''page''))" by (simp add: reply_def)
  show ?thesis
    using h1 h2 h3 h4 h5 h6 h7
      miss_fetch_store_roundtrip
        [where net = "answering (reply 200 ''page'')" and org = site, OF h1 h2 h3 h4]
    by blast
qed

text \<open>The claim as it is written fails for a partial response: the handler returns it, the
  store settles by rejecting, and the lookup of the same identity finds nothing.\<close>

theorem partial_response_not_stored:
  "req_method clip_request = ''GET''
    \<and> \<not> is_api clip_request
    \<and> caches_match shell_storage (req_url clip_request) = None
    \<and> answering (reply 206 ''bytes'') clip_request = Some (reply 206 ''bytes'')
    \<and> fst (fetch_handler site (answering (reply 206 ''bytes'')) shell_storage clip_request)
        = RespondWith (Some (reply 206 ''bytes''))
    \<and> caches_match
          (settle shell_storage
             (snd (fetch_handler site (answering (reply 206 ''bytes'')) shell_storage clip_request)))
          (req_url clip_request) = None"
  by (simp add: clip_request_def get_request_def is_api_def resolve_def shell_storage_def
      answering_def reply_def fetch_handler_def settle_def put_refused_def caches_open_def
      CACHE_NAME_def site_def)

text \<open>The two other refusals of \<^verbatim>\<open>put\<close>, on the same storage: a response of status 200
  whose \<^verbatim>\<open>Vary\<close> header names \<^verbatim>\<open>*\<close>, and a request to a URL that is not an http(s) URL.
  Both are returned to the caller and neither is stored.\<close>

lemma vary_any_response_not_stored:
  "fst (fetch_handler site (answering varying_reply) shell_storage clip_request)
      = RespondWith (Some varying_reply)
    \<and> caches_match
          (settle shell_storage
             (snd (fetch_handler site (answering varying_reply) shell_storage clip_request)))
          (req_url clip_request) = None"
  by (simp add: clip_request_def get_request_def is_api_def resolve_def shell_storage_def
      answering_def varying_reply_def fetch_handler_def settle_def put_refused_def
      caches_open_def CACHE_NAME_def site_def)

lemma extension_response_not_stored:
  "fst (fetch_handler site (answering (reply 200 ''script'')) shell_storage extension_request)
      = RespondWith (Some (reply 200 ''script''))
    \<and> caches_match
          (settle shell_storage
             (snd (fetch_handler site (answering (reply 200 ''script'')) shell_storage
                extension_request)))
          (req_url extension_request) = None"
  by (simp add: extension_request_def is_api_def resolve_def shell_storage_def
      answering_def reply_def fetch_handler_def settle_def put_refused_def storable_url_def
      caches_open_def CACHE_NAME_def site_def)

subsection \<open>An entry, once found, stays\<close>


lemma serve_length [simp]: "length (serve org st evs) = length evs"
  by (induction evs arbitrary: st) simp_all





subsection \<open>Where the handler reads and where it writes\<close>

lemma handler_writes:
  assumes "e \<in> set (snd (fetch_handler org net st rq))" and "is_cache_write e"
  shows "e = OpenCache CACHE_NAME \<or> (\<exists>r. e = CachePut CACHE_NAME (req_url rq) r)"
  using assms by (auto simp: fetch_handler_def split: if_splits option.splits)

text \<open>C10 (reads search every generation): each of the three cache reads of the fetch
  handler (the fallback of the network-first branch, the first lookup of the cache-first
  branch, the lookup of \<^verbatim>\<open>/static/index.html\<close> for an offline navigation) is a
  \<^verbatim>\<open>caches.match\<close> on the whole storage. That lookup misses only when every generation,
  whatever its name, lacks the identity, so an entry held by a generation other than
  \<^verbatim>\<open>"didit-cache-v1"\<close> is served as a hit, with no fetch. The writes alone name a
  generation: the handler opens and puts into \<^verbatim>\<open>"didit-cache-v1"\<close> and nowhere else.\<close>

theorem handler_reads_search_every_generation:
  assumes "req_method rq = ''GET''"
  shows "(is_api rq \<and> net rq = None \<longrightarrow>
        fst (fetch_handler org net st rq) = RespondWith (caches_match st (req_url rq)))
    \<and> (\<not> is_api rq \<and> caches_match st (req_url rq) \<noteq> None \<longrightarrow>
        fst (fetch_handler org net st rq) = RespondWith (caches_match st (req_url rq)))
    \<and> (\<not> is_api rq \<and> caches_match st (req_url rq) = None \<and> net rq = None
          \<and> req_mode rq = ''navigate'' \<longrightarrow>
        fst (fetch_handler org net st rq)
          = RespondWith (caches_match st (resolve org ''/static/index.html'')))
    \<and> (\<forall>k. (caches_match st k = None) = (\<forall>g \<in> set st. map_of (snd g) k = None))
    \<and> (\<forall>g \<in> set st. fst g \<noteq> ''didit-cache-v1'' \<and> map_of (snd g) (req_url rq) \<noteq> None
          \<and> \<not> is_api rq \<longrightarrow>
        (\<exists>r. fst (fetch_handler org net st rq) = RespondWith (Some r))
        \<and> fetch_count (snd (fetch_handler org net st rq)) = 0)
    \<and> (\<forall>e \<in> set (snd (fetch_handler org net st rq)). is_cache_write e \<longrightarrow>
        e = OpenCache ''didit-cache-v1'' \<or> (\<exists>r. e = CachePut ''didit-cache-v1'' (req_url rq) r))"
proof -
  have stale: "(\<exists>r. fst (fetch_handler org net st rq) = RespondWith (Some r))
      \<and> fetch_count (snd (fetch_handler org net st rq)) = 0"
    if "g \<in> set st" "map_of (snd g) (req_url rq) \<noteq> None" "\<not> is_api rq" for g
  proof -
    from that(1,2) obtain r where "caches_match st (req_url rq) = Some r"
      using caches_match_present [of g st "req_url rq"] by auto
    with assms that(3) show ?thesis
      by (simp add: fetch_handler_def fetch_count_def)
  qed
  have writes: "e = OpenCache ''didit-cache-v1'' \<or> (\<exists>r. e = CachePut ''didit-cache-v1'' (req_url rq) r)"
    if "e \<in> set (snd (fetch_handler org net st rq))" "is_cache_write e" for e
    using handler_writes [OF that] by (simp add: CACHE_NAME_def)
  have reads: "(is_api rq \<and> net rq = None \<longrightarrow>
        fst (fetch_handler org net st rq) = RespondWith (caches_match st (req_url rq)))
    \<and> (\<not> is_api rq \<and> caches_match st (req_url rq) \<noteq> None \<longrightarrow>
        fst (fetch_handler org net st rq) = RespondWith (caches_match st (req_url rq)))
    \<and> (\<not> is_api rq \<and> caches_match st (req_url rq) = None \<and> net rq = None
          \<and> req_mode rq = ''navigate'' \<longrightarrow>
        fst (fetch_handler org net st rq)
          = RespondWith (caches_match st (resolve org ''/static/index.html'')))"
    using assms by (auto simp: fetch_handler_def)
  show ?thesis
    using reads stale writes caches_match_None_iff [of st] by blast
qed

theorem handler_reads_search_every_generation_witness:
  "req_method script_request = ''GET''
    \<and> \<not> is_api script_request
    \<and> map_of (generation two_generations ''didit-cache-v1'') (req_url script_request) = None
    \<and> caches_match two_generations (req_url script_request) = Some (reply 200 ''old'')
    \<and> fst (fetch_handler site offline two_generations script_request)
        = RespondWith (Some (reply 200 ''old''))"
proof -
  have h1: "req_method script_request = ''GET''"
    by (simp add: script_request_def get_request_def)
  have h2: "\<not> is_api script_request"
    by (simp add: script_request_def get_request_def is_api_def resolve_def site_def)
  have h3: "map_of (generation two_generations ''didit-cache-v1'') (req_url script_request) = None"
    by (simp add: script_request_def get_request_def resolve_def site_def two_generations_def generation_def)
  have h4: "caches_match two_generations (req_url script_request) = Some (reply 200 ''old'')"
    by (simp add: script_request_def get_request_def resolve_def site_def two_generations_def)
  from handler_reads_search_every_generation
    [where net = offline and org = site and st = two_generations, OF h1] h2 h4
  have "fst (fetch_handler site offline two_generations script_request)
      = RespondWith (Some (reply 200 ''old''))"
    by simp
  with h1 h2 h3 h4 show ?thesis by blast
qed

section \<open>Properties of the activate handler\<close>

lemma issued_sweep:
  "issued (sweep ks) = map DeleteCache (filter (\<lambda>k. k \<noteq> CACHE_NAME) ks)"
  by (induction ks) (simp_all add: sweep_def)

lemma settle_deletes:
  "settle st (map DeleteCache ds) = filter (\<lambda>g. fst g \<notin> set ds) st"
proof (induction ds arbitrary: st)
  case Nil
  then show ?case by (simp add: settle_def)
next
  case (Cons d ds)
  have "settle st (map DeleteCache (d # ds)) = settle (caches_delete d st) (map DeleteCache ds)"
    by (simp add: settle_def)
  also have "\<dots> = filter (\<lambda>g. fst g \<notin> set ds) (caches_delete d st)"
    by (rule Cons.IH)
  also have "\<dots> = filter (\<lambda>g. fst g \<notin> set (d # ds)) st"
    by (auto simp: caches_delete_def intro: filter_cong)
  finally show ?case .
qed

lemma activate_storage:
  "fst (snd (activate_handler st)) = filter (\<lambda>g. fst g = CACHE_NAME) st"
proof -
  have "fst (snd (activate_handler st))
      = settle st (map DeleteCache (filter (\<lambda>k. k \<noteq> CACHE_NAME) (caches_keys st)))"
    by (simp add: activate_handler_def issued_sweep settle_def Let_def)
  also have "\<dots> = filter (\<lambda>g. fst g \<notin> set (filter (\<lambda>k. k \<noteq> CACHE_NAME) (caches_keys st))) st"
    by (rule settle_deletes)
  also have "\<dots> = filter (\<lambda>g. fst g = CACHE_NAME) st"
    by (rule filter_cong) (auto simp: caches_keys_def)
  finally show ?thesis .
qed

lemma activate_calls:
  "snd (snd (activate_handler st))
     = ListKeys # ClientsClaim # map DeleteCache (filter (\<lambda>k. k \<noteq> CACHE_NAME) (caches_keys st))"
  by (simp add: activate_handler_def issued_sweep Let_def)

lemma generation_filter_current:
  "generation (filter (\<lambda>g. fst g = n) st) n = generation st n"
  by (induction st) (auto simp: generation_def)

text \<open>C7 (sweep of stale generations): on activation a deletion is issued for a generation
  name of the storage exactly when the name differs from \<^verbatim>\<open>"didit-cache-v1"\<close>; no deletion
  of the current generation is issued, and the current generation is afterwards what it
  was. What remains of the storage are the generations of the current name: from
  \<^verbatim>\<open>["didit-cache-v0", "didit-cache-v1"]\<close> only \<^verbatim>\<open>"didit-cache-v1"\<close> remains.\<close>

theorem activate_sweeps_stale_generations:
  "(\<forall>k \<in> set (caches_keys st).
       (DeleteCache k \<in> set (snd (snd (activate_handler st)))) = (k \<noteq> ''didit-cache-v1''))
    \<and> DeleteCache CACHE_NAME \<notin> set (snd (snd (activate_handler st)))
    \<and> filter is_cache_write (snd (snd (activate_handler st)))
        = map DeleteCache (filter (\<lambda>k. k \<noteq> CACHE_NAME) (caches_keys st))
    \<and> fst (snd (activate_handler st)) = filter (\<lambda>g. fst g = CACHE_NAME) st
    \<and> generation (fst (snd (activate_handler st))) CACHE_NAME = generation st CACHE_NAME
    \<and> caches_keys (fst (snd (activate_handler [(''didit-cache-v0'', c0), (''didit-cache-v1'', c1)])))
        = [''didit-cache-v1'']"
proof -
  have writes: "filter is_cache_write (map DeleteCache ds) = map DeleteCache ds" for ds
    by (induction ds) simp_all
  have "(DeleteCache k \<in> set (snd (snd (activate_handler st)))) = (k \<noteq> ''didit-cache-v1'')"
    if "k \<in> set (caches_keys st)" for k
    using that by (auto simp: activate_calls CACHE_NAME_def)
  moreover have "DeleteCache CACHE_NAME \<notin> set (snd (snd (activate_handler st)))"
    by (auto simp: activate_calls)
  moreover have "filter is_cache_write (snd (snd (activate_handler st)))
      = map DeleteCache (filter (\<lambda>k. k \<noteq> CACHE_NAME) (caches_keys st))"
    by (simp add: activate_calls writes)
  moreover have "caches_keys (fst (snd (activate_handler [(''didit-cache-v0'', c0), (''didit-cache-v1'', c1)])))
      = [''didit-cache-v1'']"
    by (simp add: activate_storage caches_keys_def CACHE_NAME_def)
  ultimately show ?thesis
    by (simp add: activate_storage generation_filter_current)
qed

theorem activate_sweeps_stale_generations_witness:
  "''didit-cache-v0'' \<in> set (caches_keys two_generations)
    \<and> DeleteCache ''didit-cache-v0'' \<in> set (snd (snd (activate_handler two_generations)))
    \<and> ''didit-cache-v1'' \<in> set (caches_keys two_generations)
    \<and> DeleteCache ''didit-cache-v1'' \<notin> set (snd (snd (activate_handler two_generations)))
    \<and> fst (snd (activate_handler two_generations))
        = [(''didit-cache-v1'', [(resolve site ''/static/index.html'', reply 200 ''<html>shell</html>'')])]"
proof -
  note t = activate_sweeps_stale_generations [where st = two_generations]
  have k0: "''didit-cache-v0'' \<in> set (caches_keys two_generations)"
    and k1: "''didit-cache-v1'' \<in> set (caches_keys two_generations)"
    by (simp_all add: caches_keys_def two_generations_def)
  from t k0 have d0: "DeleteCache ''didit-cache-v0'' \<in> set (snd (snd (activate_handler two_generations)))"
    by simp
  from t k1 have d1: "DeleteCache ''didit-cache-v1'' \<notin> set (snd (snd (activate_handler two_generations)))"
    by simp
  from t have "fst (snd (activate_handler two_generations))
      = filter (\<lambda>g. fst g = CACHE_NAME) two_generations"
    by blast
  then have rest: "fst (snd (activate_handler two_generations))
      = [(''didit-cache-v1'', [(resolve site ''/static/index.html'', reply 200 ''<html>shell</html>'')])]"
    by (simp add: two_generations_def CACHE_NAME_def)
  show ?thesis using k0 k1 d0 d1 rest by blast
qed

section \<open>Properties of the install handler\<close>

lemma fetch_assets_Some:
  assumes "\<forall>rq \<in> set rqs. \<exists>r. net rq = Some r \<and> add_all_accepts r"
  shows "fetch_assets net rqs = Some (map (\<lambda>rq. (req_url rq, the (net rq))) rqs)"
  using assms by (induction rqs) (auto split: option.splits)

lemma fetch_assets_None:
  assumes "rq \<in> set rqs" and "\<forall>r. net rq = Some r \<longrightarrow> \<not> add_all_accepts r"
  shows "fetch_assets net rqs = None"
  using assms by (induction rqs) (auto split: option.splits)

lemma map_of_update_named:
  "map_of (map (\<lambda>g. if fst g = n then (fst g, f (snd g)) else g) st) n'
     = (if n' = n then map_option f (map_of st n) else map_of st n')"
  by (induction st) auto

lemma keys_put_in: "caches_keys (put_in n k r st) = caches_keys st"
  by (induction st) (simp_all add: put_in_def caches_keys_def)

lemma names_put_in [simp]: "fst ` set (put_in n k r st) = fst ` set st"
  using keys_put_in [of n k r st] by (metis caches_keys_def set_map)

lemma generation_put_in:
  assumes "n \<in> fst ` set st"
  shows "generation (put_in n k r st) n = cache_put k r (generation st n)"
proof -
  from assms obtain c where "map_of st n = Some c"
    by (metis (no_types) domD dom_map_of_conv_image_fst)
  then show ?thesis
    by (simp add: generation_def put_in_def map_of_update_named)
qed

lemma generation_put_in_other:
  assumes "n' \<noteq> n"
  shows "generation (put_in n k r st) n' = generation st n'"
  using assms by (simp add: generation_def put_in_def map_of_update_named)

lemma generation_put_all:
  assumes "n \<in> fst ` set st"
  shows "generation (put_all n es st) n = put_each es (generation st n)"
  using assms
proof (induction es arbitrary: st)
  case Nil
  then show ?case by (simp add: put_all_def put_each_def)
next
  case (Cons e es)
  have "generation (put_all n (e # es) st) n = generation (put_all n es (put_in n (fst e) (snd e) st)) n"
    by (simp add: put_all_def)
  also have "\<dots> = put_each es (generation (put_in n (fst e) (snd e) st) n)"
    using Cons.prems by (intro Cons.IH) simp
  also have "\<dots> = put_each (e # es) (generation st n)"
    using Cons.prems by (simp add: generation_put_in put_each_def)
  finally show ?case .
qed

lemma generation_put_all_other:
  assumes "n' \<noteq> n"
  shows "generation (put_all n es st) n' = generation st n'"
proof (induction es arbitrary: st)
  case Nil
  then show ?case by (simp add: put_all_def)
next
  case (Cons e es)
  have "generation (put_all n (e # es) st) n' = generation (put_all n es (put_in n (fst e) (snd e) st)) n'"
    by (simp add: put_all_def)
  then show ?case using assms by (simp add: Cons.IH generation_put_in_other)
qed

lemma identities_cache_put: "identities (cache_put k r c) = insert k (identities c)"
  by (force simp: identities_def cache_put_def)

lemma identities_put_each: "identities (put_each es c) = identities c \<union> fst ` set es"
proof (induction es arbitrary: c)
  case Nil
  then show ?case by (simp add: put_each_def)
next
  case (Cons e es)
  have "put_each (e # es) c = put_each es (cache_put (fst e) (snd e) c)"
    by (simp add: put_each_def)
  then show ?case by (simp add: Cons.IH identities_cache_put)
qed

lemma map_of_put_each:
  "map_of (put_each es c) k = (case map_of (rev es) k of Some r \<Rightarrow> Some r | None \<Rightarrow> map_of c k)"
proof (induction es arbitrary: c)
  case Nil
  then show ?case by (simp add: put_each_def)
next
  case (Cons e es)
  have "put_each (e # es) c = put_each es (cache_put (fst e) (snd e) c)"
    by (simp add: put_each_def)
  then show ?case
    by (cases e) (auto simp: Cons.IH map_of_cache_put map_add_def split: option.splits)
qed

lemma map_of_put_each_other:
  assumes "k \<notin> fst ` set es"
  shows "map_of (put_each es c) k = map_of c k"
proof -
  from assms have "map_of (rev es) k = None"
    by (simp add: map_of_eq_None_iff)
  then show ?thesis by (simp add: map_of_put_each)
qed

lemma put_each_distinct:
  assumes "distinct (map fst es)"
  shows "put_each es c = filter (\<lambda>e. fst e \<notin> fst ` set es) c @ es"
  using assms
proof (induction es arbitrary: c)
  case Nil
  then show ?case by (simp add: put_each_def)
next
  case (Cons e es)
  have "put_each (e # es) c = put_each es (cache_put (fst e) (snd e) c)"
    by (simp add: put_each_def)
  also have "\<dots> = filter (\<lambda>x. fst x \<notin> fst ` set es) (cache_put (fst e) (snd e) c) @ es"
    using Cons.prems by (intro Cons.IH) simp
  also have "\<dots> = filter (\<lambda>x. fst x \<notin> fst ` set (e # es)) c @ e # es"
    using Cons.prems by (auto simp: cache_put_def intro: filter_cong)
  finally show ?case .
qed

lemma generation_open [simp]: "generation (caches_open n st) n' = generation st n'"
proof (cases "n \<in> fst ` set st")
  case True
  then show ?thesis by (simp add: caches_open_def)
next
  case False
  then have "map_of st n = None" by (simp add: map_of_eq_None_iff)
  with False show ?thesis
    by (auto simp: caches_open_def generation_def map_add_def split: option.splits)
qed

lemma resolve_inj: "resolve org p = resolve org q \<longleftrightarrow> p = q"
  by (cases org) (simp add: resolve_def)

lemma manifest_distinct: "distinct (map (resolve org) ASSETS)"
  by (simp add: ASSETS_def resolve_inj)

lemma asset_request_url [simp]: "req_url (asset_request org p) = resolve org p"
  by (simp add: asset_request_def)

lemma add_all_requests_Some:
  assumes "\<forall>p \<in> set paths. storable_url (resolve org p)"
  shows "add_all_requests org paths = Some (map (asset_request org) paths)"
  using assms by (simp add: add_all_requests_def list_all_iff)

lemma add_all_requests_None:
  assumes "p \<in> set paths" and "\<not> storable_url (resolve org p)"
  shows "add_all_requests org paths = None"
  using assms by (auto simp: add_all_requests_def list_all_iff)

lemma install_success:
  assumes "\<forall>p \<in> set ASSETS. fetch_accepted net (asset_request org p)"
  shows "fst (install_handler org net st) = Fulfilled"
    and "fst (snd (install_handler org net st))
      = put_all CACHE_NAME (fetched_manifest org net) (caches_open CACHE_NAME st)"
proof -
  have rqs: "add_all_requests org ASSETS = Some (map (asset_request org) ASSETS)"
    using assms by (intro add_all_requests_Some) (simp add: fetch_accepted_def)
  have "fetch_assets net (map (asset_request org) ASSETS)
      = Some (map (\<lambda>rq. (req_url rq, the (net rq))) (map (asset_request org) ASSETS))"
    using assms by (intro fetch_assets_Some) (auto simp: fetch_accepted_def split: option.splits)
  also have "map (\<lambda>rq. (req_url rq, the (net rq))) (map (asset_request org) ASSETS)
      = fetched_manifest org net"
    by (simp add: fetched_manifest_def comp_def)
  finally have res: "install_handler org net st
      = (Fulfilled, put_all CACHE_NAME (fetched_manifest org net) (caches_open CACHE_NAME st),
         [OpenCache CACHE_NAME, SkipWaiting] @ add_all_fetches org ASSETS)"
    by (simp add: install_handler_def cache_add_all_def rqs Let_def)
  show "fst (install_handler org net st) = Fulfilled" by (simp add: res)
  show "fst (snd (install_handler org net st))
      = put_all CACHE_NAME (fetched_manifest org net) (caches_open CACHE_NAME st)"
    by (simp add: res)
qed

lemma install_success_generation:
  assumes "\<forall>p \<in> set ASSETS. fetch_accepted net (asset_request org p)"
  shows "generation (fst (snd (install_handler org net st))) CACHE_NAME
      = put_each (fetched_manifest org net) (generation st CACHE_NAME)"
    and "n \<noteq> CACHE_NAME \<Longrightarrow> generation (fst (snd (install_handler org net st))) n = generation st n"
  by (simp_all add: install_success(2) [OF assms] generation_put_all open_has_name
      generation_put_all_other)

lemma install_failure:
  assumes "p \<in> set ASSETS" and "\<not> fetch_accepted net (asset_request org p)"
  shows "fst (install_handler org net st) = Rejected"
    and "fst (snd (install_handler org net st)) = caches_open CACHE_NAME st"
proof -
  have "cache_add_all org net CACHE_NAME ASSETS (caches_open CACHE_NAME st) = None"
  proof (cases "storable_url (resolve org p)")
    case False
    with assms(1) have "add_all_requests org ASSETS = None"
      by (rule add_all_requests_None)
    then show ?thesis by (simp add: cache_add_all_def)
  next
    case True
    with assms(2) have "\<forall>r. net (asset_request org p) = Some r \<longrightarrow> \<not> add_all_accepts r"
      by (auto simp: fetch_accepted_def)
    with assms(1) have "fetch_assets net (map (asset_request org) ASSETS) = None"
      by (intro fetch_assets_None [where rq = "asset_request org p"]) simp_all
    then show ?thesis
      by (simp add: cache_add_all_def add_all_requests_def split: if_splits)
  qed
  then have res: "install_handler org net st
      = (Rejected, caches_open CACHE_NAME st,
         [OpenCache CACHE_NAME, SkipWaiting] @ add_all_fetches org ASSETS)"
    by (simp add: install_handler_def Let_def)
  show "fst (install_handler org net st) = Rejected" by (simp add: res)
  show "fst (snd (install_handler org net st)) = caches_open CACHE_NAME st" by (simp add: res)
qed

lemma fetched_manifest_keys:
  "fst ` set (fetched_manifest org net)
     = {resolve org ''/'', resolve org ''/static/index.html'',
        resolve org ''/static/manifest.webmanifest'', resolve org ''/static/icons/ICON.jpg''}"
  by (simp add: fetched_manifest_def ASSETS_def)

lemma fetched_manifest_distinct: "distinct (map fst (fetched_manifest org net))"
  using manifest_distinct [of org] by (simp add: fetched_manifest_def comp_def)

lemma fetched_manifest_lookup:
  assumes "p \<in> set ASSETS" and "fetch_accepted net (asset_request org p)"
  shows "map_of (rev (fetched_manifest org net)) (resolve org p) = net (asset_request org p)"
proof -
  from assms(2) obtain r where r: "net (asset_request org p) = Some r"
    by (auto simp: fetch_accepted_def split: option.splits)
  with assms(1) have "(resolve org p, r) \<in> set (rev (fetched_manifest org net))"
    by (force simp: fetched_manifest_def)
  moreover have "distinct (map fst (rev (fetched_manifest org net)))"
    using fetched_manifest_distinct [of org net] by (simp add: rev_map [symmetric])
  ultimately show ?thesis using r by (simp add: map_of_is_SomeI)
qed

lemma fetched_manifest_answers:
  assumes "\<forall>p \<in> set ASSETS. fetch_accepted net (asset_request org p)"
  shows "map (\<lambda>e. (fst e, Some (snd e))) (fetched_manifest org net)
      = map (\<lambda>p. (resolve org p, net (asset_request org p))) ASSETS"
proof -
  have "Some (the (net (asset_request org p))) = net (asset_request org p)"
    if "p \<in> set ASSETS" for p
    using assms that by (auto simp: fetch_accepted_def split: option.splits)
  then show ?thesis by (simp add: fetched_manifest_def comp_def)
qed

text \<open>A fetch that resolves with an error status, or with a \<^verbatim>\<open>Vary\<close> header that names
  \<^verbatim>\<open>*\<close>, is not one \<^verbatim>\<open>addAll\<close> accepts: the install fails although every fetch resolved.\<close>

lemma install_rejects_error_status:
  "answering (reply 404 ''not found'') (asset_request site ''/'') = Some (reply 404 ''not found'')
    \<and> \<not> fetch_accepted (answering (reply 404 ''not found'')) (asset_request site ''/'')
    \<and> fst (install_handler site (answering (reply 404 ''not found'')) []) = Rejected"
proof -
  have no: "\<not> fetch_accepted (answering (reply 404 ''not found'')) (asset_request site ''/'')"
    by (simp add: fetch_accepted_def answering_def add_all_accepts_def ok_status_def reply_def)
  have "''/'' \<in> set ASSETS" by (simp add: ASSETS_def)
  then have "fst (install_handler site (answering (reply 404 ''not found'')) []) = Rejected"
    using no by (rule install_failure(1))
  with no show ?thesis by (simp add: answering_def)
qed

lemma install_rejects_vary_any:
  "answering varying_reply (asset_request site ''/'') = Some varying_reply
    \<and> resp_status varying_reply = 200
    \<and> \<not> fetch_accepted (answering varying_reply) (asset_request site ''/'')
    \<and> fst (install_handler site (answering varying_reply) []) = Rejected"
proof -
  have no: "\<not> fetch_accepted (answering varying_reply) (asset_request site ''/'')"
    by (simp add: fetch_accepted_def answering_def add_all_accepts_def varying_reply_def)
  have "''/'' \<in> set ASSETS" by (simp add: ASSETS_def)
  then have "fst (install_handler site (answering varying_reply) []) = Rejected"
    using no by (rule install_failure(1))
  with no show ?thesis by (simp add: answering_def varying_reply_def)
qed

text \<open>C6 (install), as amended: on install with the manifest \<^verbatim>\<open>"/"\<close>,
  \<^verbatim>\<open>"/static/index.html"\<close>, \<^verbatim>\<open>"/static/manifest.webmanifest"\<close>, \<^verbatim>\<open>"/static/icons/ICON.jpg"\<close>:
  if every manifest fetch succeeds (the request has an http(s) URL and its fetch resolves
  with a response that \<^verbatim>\<open>addAll\<close> accepts: a status in 200..299 other than 206, no
  \<^verbatim>\<open>Vary\<close> header that names \<^verbatim>\<open>*\<close>), the install is reported as succeeded and the current
  generation afterwards holds the four manifest entries, each with the response fetched
  for it, after the entries it held before under other identities, which are unchanged;
  it holds exactly the four entries when it was absent or empty before. If any one
  manifest fetch fails, the install is reported as failed.\<close>

theorem install_all_or_nothing:
  "((\<forall>p \<in> set ASSETS. fetch_accepted net (asset_request org p)) \<longrightarrow>
      fst (install_handler org net st) = Fulfilled
      \<and> identities (generation (fst (snd (install_handler org net st))) CACHE_NAME)
          = identities (generation st CACHE_NAME)
            \<union> {resolve org ''/'', resolve org ''/static/index.html'',
               resolve org ''/static/manifest.webmanifest'', resolve org ''/static/icons/ICON.jpg''}
      \<and> (\<forall>p \<in> set ASSETS.
            map_of (generation (fst (snd (install_handler org net st))) CACHE_NAME) (resolve org p)
              = net (asset_request org p))
      \<and> (\<forall>k. k \<notin> {resolve org ''/'', resolve org ''/static/index.html'',
                  resolve org ''/static/manifest.webmanifest'', resolve org ''/static/icons/ICON.jpg''}
            \<longrightarrow> map_of (generation (fst (snd (install_handler org net st))) CACHE_NAME) k
                  = map_of (generation st CACHE_NAME) k)
      \<and> map (\<lambda>e. (fst e, Some (snd e)))
            (generation (fst (snd (install_handler org net st))) CACHE_NAME)
          = map (\<lambda>e. (fst e, Some (snd e)))
              (filter (\<lambda>e. fst e \<notin> {resolve org ''/'', resolve org ''/static/index.html'',
                  resolve org ''/static/manifest.webmanifest'', resolve org ''/static/icons/ICON.jpg''})
                (generation st CACHE_NAME))
            @ map (\<lambda>p. (resolve org p, net (asset_request org p))) ASSETS
      \<and> (generation st CACHE_NAME = [] \<longrightarrow>
            map (\<lambda>e. (fst e, Some (snd e)))
                (generation (fst (snd (install_handler org net st))) CACHE_NAME)
              = map (\<lambda>p. (resolve org p, net (asset_request org p))) ASSETS))
    \<and> ((\<exists>p \<in> set ASSETS. \<not> fetch_accepted net (asset_request org p)) \<longrightarrow>
      fst (install_handler org net st) = Rejected)"
proof (intro conjI impI allI)
  assume ok: "\<forall>p \<in> set ASSETS. fetch_accepted net (asset_request org p)"
  let ?M = "{resolve org ''/'', resolve org ''/static/index.html'',
    resolve org ''/static/manifest.webmanifest'', resolve org ''/static/icons/ICON.jpg''}"
  let ?gen = "generation (fst (snd (install_handler org net st))) CACHE_NAME"
  note gen = install_success_generation(1) [OF ok, of st]
  have exact: "?gen = filter (\<lambda>e. fst e \<notin> ?M) (generation st CACHE_NAME) @ fetched_manifest org net"
    by (simp only: gen put_each_distinct [OF fetched_manifest_distinct] fetched_manifest_keys)
  show "fst (install_handler org net st) = Fulfilled"
    using ok by (rule install_success(1))
  show "identities ?gen = identities (generation st CACHE_NAME) \<union> ?M"
    by (simp only: gen identities_put_each fetched_manifest_keys)
  show "\<forall>p \<in> set ASSETS. map_of ?gen (resolve org p) = net (asset_request org p)"
  proof
    fix p assume p: "p \<in> set ASSETS"
    with ok have acc: "fetch_accepted net (asset_request org p)" by blast
    then obtain r where "net (asset_request org p) = Some r"
      by (auto simp: fetch_accepted_def split: option.splits)
    then show "map_of ?gen (resolve org p) = net (asset_request org p)"
      using fetched_manifest_lookup [OF p acc] by (simp add: gen map_of_put_each)
  qed
  show "map_of ?gen k = map_of (generation st CACHE_NAME) k" if "k \<notin> ?M" for k
  proof -
    from that have "k \<notin> fst ` set (fetched_manifest org net)"
      by (simp only: fetched_manifest_keys) simp
    then show ?thesis unfolding gen by (rule map_of_put_each_other)
  qed
  show "map (\<lambda>e. (fst e, Some (snd e))) ?gen
      = map (\<lambda>e. (fst e, Some (snd e))) (filter (\<lambda>e. fst e \<notin> ?M) (generation st CACHE_NAME))
        @ map (\<lambda>p. (resolve org p, net (asset_request org p))) ASSETS"
    by (simp only: exact map_append fetched_manifest_answers [OF ok])
  show "map (\<lambda>e. (fst e, Some (snd e))) ?gen
      = map (\<lambda>p. (resolve org p, net (asset_request org p))) ASSETS"
    if "generation st CACHE_NAME = []"
    using that by (simp add: exact fetched_manifest_answers [OF ok])
next
  assume "\<exists>p \<in> set ASSETS. \<not> fetch_accepted net (asset_request org p)"
  then obtain p where p: "p \<in> set ASSETS" "\<not> fetch_accepted net (asset_request org p)"
    by blast
  show "fst (install_handler org net st) = Rejected"
    using p by (rule install_failure(1))
qed

theorem install_all_or_nothing_witness:
  "fetch_accepted (answering (reply 200 ''asset'')) (asset_request site ''/'')
    \<and> fetch_accepted (answering (reply 200 ''asset'')) (asset_request site ''/static/index.html'')
    \<and> fetch_accepted (answering (reply 200 ''asset'')) (asset_request site ''/static/manifest.webmanifest'')
    \<and> fetch_accepted (answering (reply 200 ''asset'')) (asset_request site ''/static/icons/ICON.jpg'')
    \<and> generation [] CACHE_NAME = []
    \<and> fst (install_handler site (answering (reply 200 ''asset'')) []) = Fulfilled
    \<and> map (\<lambda>e. (fst e, Some (snd e)))
          (generation (fst (snd (install_handler site (answering (reply 200 ''asset'')) []))) CACHE_NAME)
        = [(resolve site ''/'', Some (reply 200 ''asset'')),
           (resolve site ''/static/index.html'', Some (reply 200 ''asset'')),
           (resolve site ''/static/manifest.webmanifest'', Some (reply 200 ''asset'')),
           (resolve site ''/static/icons/ICON.jpg'', Some (reply 200 ''asset''))]
    \<and> \<not> fetch_accepted offline (asset_request site ''/static/index.html'')
    \<and> fst (install_handler site offline shell_storage) = Rejected"
proof -
  let ?net = "answering (reply 200 ''asset'')"
  have acc: "fetch_accepted ?net (asset_request site p)" for p
    by (simp add: fetch_accepted_def answering_def add_all_accepts_def ok_status_def reply_def
        storable_url_def resolve_def site_def)
  then have all: "\<forall>p \<in> set ASSETS. fetch_accepted ?net (asset_request site p)" by blast
  have fresh: "generation [] CACHE_NAME = []" by (simp add: generation_def)
  have down: "\<not> fetch_accepted offline (asset_request site ''/static/index.html'')"
    by (simp add: fetch_accepted_def offline_def)
  then have some: "\<exists>p \<in> set ASSETS. \<not> fetch_accepted offline (asset_request site p)"
    by (auto simp: ASSETS_def)
  note up = install_all_or_nothing [where net = ?net and org = site and st = "[]"]
  note dn = install_all_or_nothing [where net = offline and org = site and st = shell_storage]
  from up all have ok: "fst (install_handler site ?net []) = Fulfilled" by blast
  from up all fresh have "map (\<lambda>e. (fst e, Some (snd e)))
        (generation (fst (snd (install_handler site ?net []))) CACHE_NAME)
      = map (\<lambda>p. (resolve site p, ?net (asset_request site p))) ASSETS"
    by blast
  then have four: "map (\<lambda>e. (fst e, Some (snd e)))
        (generation (fst (snd (install_handler site ?net []))) CACHE_NAME)
      = [(resolve site ''/'', Some (reply 200 ''asset'')),
         (resolve site ''/static/index.html'', Some (reply 200 ''asset'')),
         (resolve site ''/static/manifest.webmanifest'', Some (reply 200 ''asset'')),
         (resolve site ''/static/icons/ICON.jpg'', Some (reply 200 ''asset''))]"
    by (simp add: ASSETS_def answering_def)
  from dn some have failed: "fst (install_handler site offline shell_storage) = Rejected" by blast
  show ?thesis using acc fresh ok four down failed by blast
qed

text \<open>The claim as it is written fails on a current generation that already holds another
  entry, as the fetch handler's background store leaves it: every manifest fetch
  succeeds, the install succeeds, and the generation holds five entries, the earlier one
  among them.\<close>

theorem install_keeps_earlier_entries:
  "fetch_accepted (answering (reply 200 ''asset'')) (asset_request site ''/'')
    \<and> fetch_accepted (answering (reply 200 ''asset'')) (asset_request site ''/static/index.html'')
    \<and> fetch_accepted (answering (reply 200 ''asset'')) (asset_request site ''/static/manifest.webmanifest'')
    \<and> fetch_accepted (answering (reply 200 ''asset'')) (asset_request site ''/static/icons/ICON.jpg'')
    \<and> fst (install_handler site (answering (reply 200 ''asset'')) refilled_storage) = Fulfilled
    \<and> generation (fst (snd (install_handler site (answering (reply 200 ''asset'')) refilled_storage)))
          CACHE_NAME
        = [(resolve site ''/some/page'', reply 200 ''page''),
           (resolve site ''/'', reply 200 ''asset''),
           (resolve site ''/static/index.html'', reply 200 ''asset''),
           (resolve site ''/static/manifest.webmanifest'', reply 200 ''asset''),
           (resolve site ''/static/icons/ICON.jpg'', reply 200 ''asset'')]"
  by (simp add: fetch_accepted_def answering_def add_all_accepts_def ok_status_def reply_def
      install_handler_def cache_add_all_def add_all_requests_def storable_url_def
      asset_request_def ASSETS_def put_all_def put_in_def
      cache_put_def caches_open_def refilled_storage_def CACHE_NAME_def generation_def
      resolve_def site_def)

end
